theory Spec2Isabelle
  imports Complex_Main "HOL-Library.Monad_Syntax"
begin

section \<open>FastMathApproximations: the scalar forms\<close>

text \<open>
  The source is \<^verbatim>\<open>modules/juce_dsp/maths/juce_FastMathApproximations.h\<close>: eight
  static template functions over a numeric type \<^verbatim>\<open>FloatType\<close>, each in a scalar form
  and in a buffer form.

  \<^verbatim>\<open>FloatType\<close> is modelled by the type \<^typ>\<open>real\<close>: every operation is exact, so
  the theory speaks about the rational functions that the source writes down, not
  about their rounded evaluation in single or double precision. All integer literals
  of the source are promoted to \<^verbatim>\<open>FloatType\<close> before any arithmetic is done on them
  (each one is an operand of an operation whose other operand is a \<^verbatim>\<open>FloatType\<close>), so
  no integer arithmetic takes place.

  Every scalar form ends in \<^verbatim>\<open>return numerator / denominator;\<close>. The two locals are
  kept as two definitions, each with the source's local \<^verbatim>\<open>x2\<close> and constants, and the
  scalar form is their quotient. In HOL \<open>x / 0 = 0\<close>, whereas the source would produce
  an infinity or a NaN; the denominators are therefore available on their own, and
  their zeros are studied separately.

  Where the rounding of the floating-point operations decides a property, the exact
  model does not speak for the program. For the scalar form of exp a second embedding
  is given further down, with \<^verbatim>\<open>FloatType\<close> instantiated by \<^verbatim>\<open>double\<close> and every operation
  rounded as IEEE 754 binary64 does.
\<close>

subsection \<open>cosh\<close>

definition cosh_numerator :: "real \<Rightarrow> real" where
  "cosh_numerator x =
     (let a = 39251520; b = 39251520; c = 1075032; d = 14615;
          x2 = x * x
      in - (a + x2 * (b + x2 * (c + d * x2))))"

definition cosh_denominator :: "real \<Rightarrow> real" where
  "cosh_denominator x =
     (let a = 39251520; e = 1154160; f = 16632; g = 127;
          x2 = x * x
      in - a + x2 * (e + x2 * (- f + g * x2)))"

definition cosh_scalar :: "real \<Rightarrow> real" where
  "cosh_scalar x = cosh_numerator x / cosh_denominator x"

subsection \<open>sinh\<close>

definition sinh_numerator :: "real \<Rightarrow> real" where
  "sinh_numerator x =
     (let x2 = x * x
      in - x * (11511339840 + x2 * (1640635920 + x2 * (52785432 + x2 * 479249))))"

definition sinh_denominator :: "real \<Rightarrow> real" where
  "sinh_denominator x =
     (let x2 = x * x
      in - 11511339840 + x2 * (277920720 + x2 * (- 3177720 + x2 * 18361)))"

definition sinh_scalar :: "real \<Rightarrow> real" where
  "sinh_scalar x = sinh_numerator x / sinh_denominator x"

subsection \<open>tanh\<close>

definition tanh_numerator :: "real \<Rightarrow> real" where
  "tanh_numerator x =
     (let x2 = x * x
      in x * (135135 + x2 * (17325 + x2 * (378 + x2))))"

definition tanh_denominator :: "real \<Rightarrow> real" where
  "tanh_denominator x =
     (let x2 = x * x
      in 135135 + x2 * (62370 + x2 * (3150 + 28 * x2)))"

definition tanh_scalar :: "real \<Rightarrow> real" where
  "tanh_scalar x = tanh_numerator x / tanh_denominator x"

subsection \<open>cos\<close>

definition cos_numerator :: "real \<Rightarrow> real" where
  "cos_numerator x =
     (let a = 39251520; b = 18471600; c = 1075032; d = 14615;
          x2 = x * x
      in - (- a + x2 * (b + x2 * (- c + d * x2))))"

definition cos_denominator :: "real \<Rightarrow> real" where
  "cos_denominator x =
     (let a = 39251520; e = 1154160; f = 16632; g = 127;
          x2 = x * x
      in a + x2 * (e + x2 * (f + x2 * g)))"

definition cos_scalar :: "real \<Rightarrow> real" where
  "cos_scalar x = cos_numerator x / cos_denominator x"

subsection \<open>sin\<close>

definition sin_numerator :: "real \<Rightarrow> real" where
  "sin_numerator x =
     (let a = 11511339840; b = 1640635920; c = 52785432; d = 479249;
          x2 = x * x
      in - x * (- a + x2 * (b + x2 * (- c + x2 * d))))"

definition sin_denominator :: "real \<Rightarrow> real" where
  "sin_denominator x =
     (let a = 11511339840; e = 277920720; f = 3177720; g = 18361;
          x2 = x * x
      in a + x2 * (e + x2 * (f + x2 * g)))"

definition sin_scalar :: "real \<Rightarrow> real" where
  "sin_scalar x = sin_numerator x / sin_denominator x"

subsection \<open>tan\<close>

definition tan_numerator :: "real \<Rightarrow> real" where
  "tan_numerator x =
     (let x2 = x * x
      in x * (- 135135 + x2 * (17325 + x2 * (- 378 + x2))))"

definition tan_denominator :: "real \<Rightarrow> real" where
  "tan_denominator x =
     (let x2 = x * x
      in - 135135 + x2 * (62370 + x2 * (- 3150 + 28 * x2)))"

definition tan_scalar :: "real \<Rightarrow> real" where
  "tan_scalar x = tan_numerator x / tan_denominator x"

subsection \<open>exp\<close>

definition exp_numerator :: "real \<Rightarrow> real" where
  "exp_numerator x = 1680 + x * (840 + x * (180 + x * (20 + x)))"

definition exp_denominator :: "real \<Rightarrow> real" where
  "exp_denominator x = 1680 + x * (- 840 + x * (180 + x * (- 20 + x)))"

definition exp_scalar :: "real \<Rightarrow> real" where
  "exp_scalar x = exp_numerator x / exp_denominator x"

subsection \<open>logNPlusOne\<close>

definition logNPlusOne_numerator :: "real \<Rightarrow> real" where
  "logNPlusOne_numerator x =
     x * (7560 + x * (15120 + x * (9870 + x * (2310 + x * 137))))"

definition logNPlusOne_denominator :: "real \<Rightarrow> real" where
  "logNPlusOne_denominator x =
     7560 + x * (18900 + x * (16800 + x * (6300 + x * (900 + 30 * x))))"

definition logNPlusOne_scalar :: "real \<Rightarrow> real" where
  "logNPlusOne_scalar x = logNPlusOne_numerator x / logNPlusOne_denominator x"

section \<open>The buffer forms\<close>

text \<open>
  Each buffer form is the same loop around its scalar form:
  \<^verbatim>\<open>for (size_t i = 0; i < numValues; ++i) values[i] = f (values[i]);\<close>

  The loop is the recursive function \<open>buffer_loop\<close>, whose arguments are the scalar
  form, the bound \<^verbatim>\<open>numValues\<close>, the loop variable \<^verbatim>\<open>i\<close> and the buffer. The buffer is
  a list; the source receives a bare pointer and reads and writes \<^verbatim>\<open>values[i]\<close>
  without any check, so an access at an index that the buffer does not have is
  undefined behaviour, which the model reports as \<open>None\<close>. The argument \<open>calls\<close> is
  not a variable of the source: it counts the calls of the scalar form made so far.
  The counters are natural numbers: \<^verbatim>\<open>++i\<close> is only executed when
  \<^verbatim>\<open>i < numValues\<close>, so it never wraps around.
\<close>

function buffer_loop ::
  "('a \<Rightarrow> 'a) \<Rightarrow> nat \<Rightarrow> nat \<Rightarrow> nat \<Rightarrow> 'a list \<Rightarrow> ('a list \<times> nat) option" where
  "buffer_loop f numValues i calls values =
     (if i < numValues
      then (if i < length values
            then buffer_loop f numValues (i + 1) (calls + 1) (values[i := f (values ! i)])
            else None)
      else Some (values, calls))"
  by pat_completeness auto
termination
  by (relation "measure (\<lambda>(f, numValues, i, calls, values). numValues - i)") auto

declare buffer_loop.simps [simp del]

definition cosh_buffer :: "real list \<Rightarrow> nat \<Rightarrow> (real list \<times> nat) option" where
  "cosh_buffer values numValues = buffer_loop cosh_scalar numValues 0 0 values"

definition sinh_buffer :: "real list \<Rightarrow> nat \<Rightarrow> (real list \<times> nat) option" where
  "sinh_buffer values numValues = buffer_loop sinh_scalar numValues 0 0 values"

definition tanh_buffer :: "real list \<Rightarrow> nat \<Rightarrow> (real list \<times> nat) option" where
  "tanh_buffer values numValues = buffer_loop tanh_scalar numValues 0 0 values"

definition cos_buffer :: "real list \<Rightarrow> nat \<Rightarrow> (real list \<times> nat) option" where
  "cos_buffer values numValues = buffer_loop cos_scalar numValues 0 0 values"

definition sin_buffer :: "real list \<Rightarrow> nat \<Rightarrow> (real list \<times> nat) option" where
  "sin_buffer values numValues = buffer_loop sin_scalar numValues 0 0 values"

definition tan_buffer :: "real list \<Rightarrow> nat \<Rightarrow> (real list \<times> nat) option" where
  "tan_buffer values numValues = buffer_loop tan_scalar numValues 0 0 values"

definition exp_buffer :: "real list \<Rightarrow> nat \<Rightarrow> (real list \<times> nat) option" where
  "exp_buffer values numValues = buffer_loop exp_scalar numValues 0 0 values"

definition logNPlusOne_buffer :: "real list \<Rightarrow> nat \<Rightarrow> (real list \<times> nat) option" where
  "logNPlusOne_buffer values numValues = buffer_loop logNPlusOne_scalar numValues 0 0 values"

section \<open>The scalar form of exp in binary64\<close>

text \<open>
  The template instantiated with \<^verbatim>\<open>FloatType = double\<close>. A finite \<^verbatim>\<open>double\<close> is modelled
  by the real number it denotes (the two signed zeros are not told apart), and \<open>None\<close>
  stands for a result that is not finite: an infinity or a NaN, from an overflow or
  from a division by zero. Infinities and NaNs are not followed through later
  operations: once an operation has no finite result, the model gives \<open>None\<close> for the
  whole expression.

  Every operation returns the exact result rounded to the nearest number of the
  format, ties going to the even significand. \<open>binade y\<close> is the exponent \<open>e\<close> with
  \<open>2 ^ e \<le> \<bar>y\<bar> < 2 ^ (e + 1)\<close>; it is found by halving or doubling. The significand
  has 53 bits, so the numbers of that binade are the multiples of \<open>2 ^ (e - 52)\<close>;
  below \<open>2 ^ - 1022\<close> the spacing stays \<open>2 ^ - 1074\<close> (subnormal numbers); a rounded
  result of magnitude \<open>2 ^ 1024\<close> or more overflows.
\<close>

definition round_half_even :: "real \<Rightarrow> int" where
  "round_half_even y =
     (let f = \<lfloor>y\<rfloor>; d = y - of_int f
      in if d < 1 / 2 then f else if 1 / 2 < d then f + 1 else if even f then f else f + 1)"

function expo_up :: "real \<Rightarrow> int" where
  "expo_up y = (if 2 \<le> y then expo_up (y / 2) + 1 else 0)"
  by pat_completeness auto
termination
proof (relation "measure (\<lambda>y. nat \<lfloor>y\<rfloor>)")
  show "wf (measure (\<lambda>y::real. nat \<lfloor>y\<rfloor>))" by simp
next
  fix y :: real assume "2 \<le> y"
  then have "\<lfloor>y / 2\<rfloor> < \<lfloor>y\<rfloor>" by linarith
  moreover have "0 < \<lfloor>y\<rfloor>" using \<open>2 \<le> y\<close> by linarith
  ultimately show "(y / 2, y) \<in> measure (\<lambda>y. nat \<lfloor>y\<rfloor>)" by simp
qed

function expo_down :: "real \<Rightarrow> int" where
  "expo_down y = (if 0 < y \<and> y < 1 then expo_down (2 * y) - 1 else 0)"
  by pat_completeness auto
termination
proof (relation "measure (\<lambda>y. nat \<lfloor>1 / y\<rfloor>)")
  show "wf (measure (\<lambda>y::real. nat \<lfloor>1 / y\<rfloor>))" by simp
next
  fix y :: real assume a: "0 < y \<and> y < 1"
  then have "1 < 1 / y" by simp
  then have p: "0 < \<lfloor>1 / y\<rfloor>" by linarith
  have e: "1 / (2 * y) = (1 / y) / 2" by simp
  have "\<lfloor>(1 / y) / 2\<rfloor> = \<lfloor>1 / y\<rfloor> div 2"
    using floor_divide_real_eq_div [of 2 "1 / y"] by simp
  then have "\<lfloor>1 / (2 * y)\<rfloor> = \<lfloor>1 / y\<rfloor> div 2" by (simp only: e)
  then have "nat \<lfloor>1 / (2 * y)\<rfloor> < nat \<lfloor>1 / y\<rfloor>" using p by linarith
  then show "(2 * y, y) \<in> measure (\<lambda>y. nat \<lfloor>1 / y\<rfloor>)"
    unfolding in_measure .
qed

declare expo_up.simps [simp del] expo_down.simps [simp del]

definition binade :: "real \<Rightarrow> int" where
  "binade y = (if 1 \<le> \<bar>y\<bar> then expo_up \<bar>y\<bar> else expo_down \<bar>y\<bar>)"

definition round_binary64 :: "real \<Rightarrow> real" where
  "round_binary64 y =
     (let e = max (binade y) (- 1022); ulp = 2 powi (e - 52)
      in of_int (round_half_even (y / ulp)) * ulp)"

definition fl :: "real \<Rightarrow> real option" where
  "fl y = (let r = round_binary64 y in if \<bar>r\<bar> < 2 ^ 1024 then Some r else None)"

definition fadd :: "real \<Rightarrow> real \<Rightarrow> real option" where
  "fadd a b = fl (a + b)"

definition fmul :: "real \<Rightarrow> real \<Rightarrow> real option" where
  "fmul a b = fl (a * b)"

definition fdiv :: "real \<Rightarrow> real \<Rightarrow> real option" where
  "fdiv a b = (if b = 0 then None else fl (a / b))"

text \<open>
  The source evaluates
  \<^verbatim>\<open>numerator = 1680 + x * (840 + x * (180 + x * (20 + x)))\<close>,
  \<^verbatim>\<open>denominator = 1680 + x *(-840 + x * (180 + x * (-20 + x)))\<close> and
  \<^verbatim>\<open>numerator / denominator\<close> from the innermost operation outwards, each operation
  with its own rounding (no fused multiply-add). The integer literals are converted
  to \<^verbatim>\<open>double\<close> exactly.
\<close>

definition exp_numerator_double :: "real \<Rightarrow> real option" where
  "exp_numerator_double x =
     do { t1 \<leftarrow> fadd 20 x; t2 \<leftarrow> fmul x t1; t3 \<leftarrow> fadd 180 t2; t4 \<leftarrow> fmul x t3;
          t5 \<leftarrow> fadd 840 t4; t6 \<leftarrow> fmul x t5; fadd 1680 t6 }"

definition exp_denominator_double :: "real \<Rightarrow> real option" where
  "exp_denominator_double x =
     do { t1 \<leftarrow> fadd (- 20) x; t2 \<leftarrow> fmul x t1; t3 \<leftarrow> fadd 180 t2; t4 \<leftarrow> fmul x t3;
          t5 \<leftarrow> fadd (- 840) t4; t6 \<leftarrow> fmul x t5; fadd 1680 t6 }"

definition exp_scalar_double :: "real \<Rightarrow> real option" where
  "exp_scalar_double x =
     do { numerator \<leftarrow> exp_numerator_double x;
          denominator \<leftarrow> exp_denominator_double x;
          fdiv numerator denominator }"

lemmas numerator_defs =
  cosh_numerator_def sinh_numerator_def tanh_numerator_def cos_numerator_def
  sin_numerator_def tan_numerator_def exp_numerator_def logNPlusOne_numerator_def

lemmas denominator_defs =
  cosh_denominator_def sinh_denominator_def tanh_denominator_def cos_denominator_def
  sin_denominator_def tan_denominator_def exp_denominator_def logNPlusOne_denominator_def

lemmas scalar_defs =
  cosh_scalar_def sinh_scalar_def tanh_scalar_def cos_scalar_def
  sin_scalar_def tan_scalar_def exp_scalar_def logNPlusOne_scalar_def

lemmas buffer_defs =
  cosh_buffer_def sinh_buffer_def tanh_buffer_def cos_buffer_def
  sin_buffer_def tan_buffer_def exp_buffer_def logNPlusOne_buffer_def

lemmas double_defs = round_half_even_def binade_def round_binary64_def fl_def fadd_def
  fmul_def fdiv_def expo_up.simps expo_down.simps

section \<open>The rational functions of exp and logNPlusOne\<close>

text \<open>
  C4. For every input \<open>x\<close> the scalar form of exp returns \<open>N x / D x\<close> with
  \<open>N x = 1680 + x (840 + x (180 + x (20 + x)))\<close> and
  \<open>D x = 1680 + x (- 840 + x (180 + x (- 20 + x)))\<close>: both polynomials are evaluated
  in \<open>x\<close> itself, with these coefficients, in Horner form. Written out, they are the
  polynomials of degree four with the coefficients 1, 20, 180, 840, 1680 and
  1, - 20, 180, - 840, 1680.
\<close>

theorem exp_scalar_formula:
  "exp_scalar x =
     (1680 + x * (840 + x * (180 + x * (20 + x)))) /
     (1680 + x * (- 840 + x * (180 + x * (- 20 + x))))
   \<and> exp_numerator x = x ^ 4 + 20 * x ^ 3 + 180 * x ^ 2 + 840 * x + 1680
   \<and> exp_denominator x = x ^ 4 - 20 * x ^ 3 + 180 * x ^ 2 - 840 * x + 1680"
proof (intro conjI)
  show "exp_scalar x =
     (1680 + x * (840 + x * (180 + x * (20 + x)))) /
     (1680 + x * (- 840 + x * (180 + x * (- 20 + x))))"
    by (simp only: exp_scalar_def exp_numerator_def exp_denominator_def)
  show "exp_numerator x = x ^ 4 + 20 * x ^ 3 + 180 * x ^ 2 + 840 * x + 1680"
    unfolding exp_numerator_def by (simp add: power_numeral_reduce algebra_simps)
  show "exp_denominator x = x ^ 4 - 20 * x ^ 3 + 180 * x ^ 2 - 840 * x + 1680"
    unfolding exp_denominator_def by (simp add: power_numeral_reduce algebra_simps)
qed

text \<open>
  C5. For every input \<open>x\<close> the scalar form of logNPlusOne returns \<open>N x / D x\<close> with
  \<open>N x = x (7560 + x (15120 + x (9870 + x (2310 + 137 x))))\<close> and
  \<open>D x = 7560 + x (18900 + x (16800 + x (6300 + x (900 + 30 x))))\<close>: a polynomial of
  degree five over a polynomial of degree five, both evaluated in \<open>x\<close> itself.
\<close>

theorem logNPlusOne_scalar_formula:
  "logNPlusOne_scalar x =
     (x * (7560 + x * (15120 + x * (9870 + x * (2310 + 137 * x))))) /
     (7560 + x * (18900 + x * (16800 + x * (6300 + x * (900 + 30 * x)))))
   \<and> logNPlusOne_numerator x =
       137 * x ^ 5 + 2310 * x ^ 4 + 9870 * x ^ 3 + 15120 * x ^ 2 + 7560 * x
   \<and> logNPlusOne_denominator x =
       30 * x ^ 5 + 900 * x ^ 4 + 6300 * x ^ 3 + 16800 * x ^ 2 + 18900 * x + 7560"
proof (intro conjI)
  have comm: "x * 137 = 137 * x" by simp
  show "logNPlusOne_scalar x =
     (x * (7560 + x * (15120 + x * (9870 + x * (2310 + 137 * x))))) /
     (7560 + x * (18900 + x * (16800 + x * (6300 + x * (900 + 30 * x)))))"
    by (simp only: logNPlusOne_scalar_def logNPlusOne_numerator_def
        logNPlusOne_denominator_def comm)
  show "logNPlusOne_numerator x =
       137 * x ^ 5 + 2310 * x ^ 4 + 9870 * x ^ 3 + 15120 * x ^ 2 + 7560 * x"
    unfolding logNPlusOne_numerator_def by (simp add: power_numeral_reduce algebra_simps)
  show "logNPlusOne_denominator x =
       30 * x ^ 5 + 900 * x ^ 4 + 6300 * x ^ 3 + 16800 * x ^ 2 + 18900 * x + 7560"
    unfolding logNPlusOne_denominator_def by (simp add: power_numeral_reduce algebra_simps)
qed

section \<open>Values at zero\<close>

text \<open>
  C6. At \<open>x = 0\<close> the scalar forms of cos, cosh and exp return exactly 1 and those
  of sin, sinh, tan, tanh and logNPlusOne return exactly 0. None of the eight
  denominators is zero there, so each value is a genuine quotient. An exact value is
  in particular within every positive tolerance.
\<close>

theorem scalar_forms_at_zero:
  "cos_scalar 0 = 1 \<and> cosh_scalar 0 = 1 \<and> sin_scalar 0 = 0 \<and> sinh_scalar 0 = 0
   \<and> tan_scalar 0 = 0 \<and> tanh_scalar 0 = 0 \<and> exp_scalar 0 = 1 \<and> logNPlusOne_scalar 0 = 0
   \<and> cos_denominator 0 \<noteq> 0 \<and> cosh_denominator 0 \<noteq> 0 \<and> sin_denominator 0 \<noteq> 0
   \<and> sinh_denominator 0 \<noteq> 0 \<and> tan_denominator 0 \<noteq> 0 \<and> tanh_denominator 0 \<noteq> 0
   \<and> exp_denominator 0 \<noteq> 0 \<and> logNPlusOne_denominator 0 \<noteq> 0"
  by (simp add: scalar_defs numerator_defs denominator_defs)

section \<open>The loop of the buffer forms\<close>

text \<open>
  Within the buffer, the loop started at \<open>i\<close> returns the buffer with the scalar form
  applied to the elements from \<open>i\<close> up to \<open>numValues\<close>, and has then called the scalar
  form \<open>numValues - i\<close> more times.
\<close>

lemma buffer_loop_closed:
  "i \<le> n \<Longrightarrow> n \<le> length vs \<Longrightarrow>
   buffer_loop f n i c vs =
     Some (take i vs @ map f (take (n - i) (drop i vs)) @ drop n vs, c + (n - i))"
proof (induction f n i c vs rule: buffer_loop.induct)
  case (1 f numValues i calls vs)
  show ?case
  proof (cases "i < numValues")
    case False
    with "1.prems" have "i = numValues" by simp
    then show ?thesis by (simp add: buffer_loop.simps)
  next
    case True
    with "1.prems" have il: "i < length vs" by simp
    let ?vs' = "vs[i := f (vs ! i)]"
    have IH: "buffer_loop f numValues (Suc i) (Suc calls) ?vs' =
       Some (take (Suc i) ?vs' @ map f (take (numValues - Suc i) (drop (Suc i) ?vs'))
               @ drop numValues ?vs',
             Suc calls + (numValues - Suc i))"
      using "1.IH"[OF True il] True "1.prems" by simp
    have a: "take (Suc i) ?vs' = take i vs @ [f (vs ! i)]"
      using il by (simp add: take_Suc_conv_app_nth)
    have b: "drop (Suc i) ?vs' = drop (Suc i) vs" by simp
    have c: "drop numValues ?vs' = drop numValues vs" using True by simp
    have e: "numValues - i = Suc (numValues - Suc i)" using True by simp
    have d: "take (numValues - i) (drop i vs) =
               vs ! i # take (numValues - Suc i) (drop (Suc i) vs)"
      using il by (simp add: e Cons_nth_drop_Suc [symmetric])
    have "buffer_loop f numValues i calls vs =
            buffer_loop f numValues (Suc i) (Suc calls) ?vs'"
      using True il by (subst buffer_loop.simps) simp
    also have "\<dots> =
        Some (take i vs @ map f (take (numValues - i) (drop i vs)) @ drop numValues vs,
              calls + (numValues - i))"
      unfolding IH a b c d using True by simp
    finally show ?thesis .
  qed
qed

lemma buffer_loop_run:
  "n \<le> length vs \<Longrightarrow> buffer_loop f n 0 0 vs = Some (map f (take n vs) @ drop n vs, n)"
  using buffer_loop_closed [of 0 n vs f 0] by simp

text \<open>
  A count beyond the length of the buffer makes the loop access an element that the
  buffer does not have.
\<close>

lemma buffer_loop_out_of_bounds:
  "i \<le> n \<Longrightarrow> length vs < n \<Longrightarrow> i \<le> length vs \<Longrightarrow> buffer_loop f n i c vs = None"
proof (induction f n i c vs rule: buffer_loop.induct)
  case (1 f numValues i calls vs)
  show ?case
  proof (cases "i < length vs")
    case True
    then show ?thesis using "1.IH" "1.prems" by (subst buffer_loop.simps) simp
  next
    case False
    then show ?thesis using "1.prems" by (subst buffer_loop.simps) simp
  qed
qed

lemma buffer_loop_elementwise:
  assumes "n \<le> length vs" and "i < n"
  shows "\<exists>out calls. buffer_loop f n 0 0 vs = Some (out, calls) \<and> out ! i = f (vs ! i)"
  using assms by (simp add: buffer_loop_run nth_append)

lemma buffer_loop_frame:
  assumes "n \<le> length vs"
  shows "\<exists>out calls. buffer_loop f n 0 0 vs = Some (out, calls) \<and> length out = length vs
           \<and> (\<forall>j. n \<le> j \<and> j < length vs \<longrightarrow> out ! j = vs ! j)"
  using assms by (simp add: buffer_loop_run nth_append min_def)

lemma buffer_loop_zero: "buffer_loop f 0 0 0 vs = Some (vs, 0)"
  by (simp add: buffer_loop.simps)

lemma buffer_loop_calls:
  assumes "n \<le> length vs"
  shows "\<exists>out. buffer_loop f n 0 0 vs = Some (out, n) \<and> length out = length vs"
  using assms by (simp add: buffer_loop_run)

section \<open>Buffer forms and scalar forms\<close>

text \<open>
  C1. Each of the eight buffer forms agrees elementwise with its scalar form: for a
  buffer \<open>buf\<close> and a count \<open>n\<close> within it, the call returns, and for every index
  \<open>i < n\<close> the element at \<open>i\<close> of the returned buffer is the scalar form applied to the
  original element at \<open>i\<close>.
\<close>

theorem buffer_form_elementwise:
  assumes "n \<le> length buf" and "i < n"
  shows
    "(\<exists>out calls. cosh_buffer buf n = Some (out, calls) \<and> out ! i = cosh_scalar (buf ! i))
   \<and> (\<exists>out calls. sinh_buffer buf n = Some (out, calls) \<and> out ! i = sinh_scalar (buf ! i))
   \<and> (\<exists>out calls. tanh_buffer buf n = Some (out, calls) \<and> out ! i = tanh_scalar (buf ! i))
   \<and> (\<exists>out calls. cos_buffer buf n = Some (out, calls) \<and> out ! i = cos_scalar (buf ! i))
   \<and> (\<exists>out calls. sin_buffer buf n = Some (out, calls) \<and> out ! i = sin_scalar (buf ! i))
   \<and> (\<exists>out calls. tan_buffer buf n = Some (out, calls) \<and> out ! i = tan_scalar (buf ! i))
   \<and> (\<exists>out calls. exp_buffer buf n = Some (out, calls) \<and> out ! i = exp_scalar (buf ! i))
   \<and> (\<exists>out calls. logNPlusOne_buffer buf n = Some (out, calls)
          \<and> out ! i = logNPlusOne_scalar (buf ! i))"
  unfolding buffer_defs by (intro conjI buffer_loop_elementwise assms)

theorem buffer_form_elementwise_witness:
  "(2 :: nat) \<le> length [0, 1 / 2, 1 :: real] \<and> (1 :: nat) < 2
   \<and> (\<exists>out calls. cosh_buffer [0, 1 / 2, 1] 2 = Some (out, calls) \<and> out ! 1 = cosh_scalar (1 / 2))
   \<and> (\<exists>out calls. sinh_buffer [0, 1 / 2, 1] 2 = Some (out, calls) \<and> out ! 1 = sinh_scalar (1 / 2))
   \<and> (\<exists>out calls. tanh_buffer [0, 1 / 2, 1] 2 = Some (out, calls) \<and> out ! 1 = tanh_scalar (1 / 2))
   \<and> (\<exists>out calls. cos_buffer [0, 1 / 2, 1] 2 = Some (out, calls) \<and> out ! 1 = cos_scalar (1 / 2))
   \<and> (\<exists>out calls. sin_buffer [0, 1 / 2, 1] 2 = Some (out, calls) \<and> out ! 1 = sin_scalar (1 / 2))
   \<and> (\<exists>out calls. tan_buffer [0, 1 / 2, 1] 2 = Some (out, calls) \<and> out ! 1 = tan_scalar (1 / 2))
   \<and> (\<exists>out calls. exp_buffer [0, 1 / 2, 1] 2 = Some (out, calls) \<and> out ! 1 = exp_scalar (1 / 2))
   \<and> (\<exists>out calls. logNPlusOne_buffer [0, 1 / 2, 1] 2 = Some (out, calls)
          \<and> out ! 1 = logNPlusOne_scalar (1 / 2))"
proof -
  have h1: "(2 :: nat) \<le> length [0, 1 / 2, 1 :: real]" by simp
  have h2: "(1 :: nat) < 2" by simp
  have n: "[0, 1 / 2, 1 :: real] ! 1 = 1 / 2" by simp
  show ?thesis using h1 h2 buffer_form_elementwise [OF h1 h2] unfolding n by blast
qed

text \<open>
  C3. Each of the eight buffer forms leaves the elements at the indices from \<open>n\<close> on
  as they were, and the buffer as long as it was: nothing past the requested count is
  written. A call with \<open>n = 0\<close> returns the buffer unchanged.
\<close>

theorem buffer_form_frame:
  assumes "n \<le> length buf"
  shows
    "(\<exists>out calls. cosh_buffer buf n = Some (out, calls) \<and> length out = length buf
        \<and> (\<forall>j. n \<le> j \<and> j < length buf \<longrightarrow> out ! j = buf ! j))
   \<and> (\<exists>out calls. sinh_buffer buf n = Some (out, calls) \<and> length out = length buf
        \<and> (\<forall>j. n \<le> j \<and> j < length buf \<longrightarrow> out ! j = buf ! j))
   \<and> (\<exists>out calls. tanh_buffer buf n = Some (out, calls) \<and> length out = length buf
        \<and> (\<forall>j. n \<le> j \<and> j < length buf \<longrightarrow> out ! j = buf ! j))
   \<and> (\<exists>out calls. cos_buffer buf n = Some (out, calls) \<and> length out = length buf
        \<and> (\<forall>j. n \<le> j \<and> j < length buf \<longrightarrow> out ! j = buf ! j))
   \<and> (\<exists>out calls. sin_buffer buf n = Some (out, calls) \<and> length out = length buf
        \<and> (\<forall>j. n \<le> j \<and> j < length buf \<longrightarrow> out ! j = buf ! j))
   \<and> (\<exists>out calls. tan_buffer buf n = Some (out, calls) \<and> length out = length buf
        \<and> (\<forall>j. n \<le> j \<and> j < length buf \<longrightarrow> out ! j = buf ! j))
   \<and> (\<exists>out calls. exp_buffer buf n = Some (out, calls) \<and> length out = length buf
        \<and> (\<forall>j. n \<le> j \<and> j < length buf \<longrightarrow> out ! j = buf ! j))
   \<and> (\<exists>out calls. logNPlusOne_buffer buf n = Some (out, calls) \<and> length out = length buf
        \<and> (\<forall>j. n \<le> j \<and> j < length buf \<longrightarrow> out ! j = buf ! j))
   \<and> cosh_buffer buf 0 = Some (buf, 0) \<and> sinh_buffer buf 0 = Some (buf, 0)
   \<and> tanh_buffer buf 0 = Some (buf, 0) \<and> cos_buffer buf 0 = Some (buf, 0)
   \<and> sin_buffer buf 0 = Some (buf, 0) \<and> tan_buffer buf 0 = Some (buf, 0)
   \<and> exp_buffer buf 0 = Some (buf, 0) \<and> logNPlusOne_buffer buf 0 = Some (buf, 0)"
  unfolding buffer_defs by (intro conjI buffer_loop_frame buffer_loop_zero assms)

theorem buffer_form_frame_witness:
  "(2 :: nat) \<le> length [0, 1 / 2, 1 :: real]
   \<and> (\<exists>out calls. cosh_buffer [0, 1 / 2, 1] 2 = Some (out, calls) \<and> length out = 3 \<and> out ! 2 = 1)
   \<and> (\<exists>out calls. sinh_buffer [0, 1 / 2, 1] 2 = Some (out, calls) \<and> length out = 3 \<and> out ! 2 = 1)
   \<and> (\<exists>out calls. tanh_buffer [0, 1 / 2, 1] 2 = Some (out, calls) \<and> length out = 3 \<and> out ! 2 = 1)
   \<and> (\<exists>out calls. cos_buffer [0, 1 / 2, 1] 2 = Some (out, calls) \<and> length out = 3 \<and> out ! 2 = 1)
   \<and> (\<exists>out calls. sin_buffer [0, 1 / 2, 1] 2 = Some (out, calls) \<and> length out = 3 \<and> out ! 2 = 1)
   \<and> (\<exists>out calls. tan_buffer [0, 1 / 2, 1] 2 = Some (out, calls) \<and> length out = 3 \<and> out ! 2 = 1)
   \<and> (\<exists>out calls. exp_buffer [0, 1 / 2, 1] 2 = Some (out, calls) \<and> length out = 3 \<and> out ! 2 = 1)
   \<and> (\<exists>out calls. logNPlusOne_buffer [0, 1 / 2, 1] 2 = Some (out, calls)
         \<and> length out = 3 \<and> out ! 2 = 1)
   \<and> exp_buffer [0, 1 / 2, 1] 0 = Some ([0, 1 / 2, 1], 0)"
proof -
  have h: "(2 :: nat) \<le> length [0, 1 / 2, 1 :: real]" by simp
  have l: "length [0, 1 / 2, 1 :: real] = 3" and n: "[0, 1 / 2, 1 :: real] ! 2 = 1" by simp_all
  have j: "P 2 \<Longrightarrow> (\<forall>j. 2 \<le> j \<and> j < (3 :: nat) \<longrightarrow> P j)" for P
    by (auto simp: le_less_Suc_eq numeral_3_eq_3 numeral_2_eq_2)
  have j': "(\<forall>j. 2 \<le> j \<and> j < (3 :: nat) \<longrightarrow> P j) = P 2" for P
    using j [of P] by auto
  show ?thesis using h buffer_form_frame [OF h] unfolding l j' n by simp
qed

text \<open>
  C9. Each of the eight buffer forms returns: the loop is a total function, and on a
  buffer \<open>buf\<close> and a count \<open>n\<close> within it the call ends without an access outside the
  buffer, after exactly \<open>n\<close> calls of the scalar form, one for each of the first \<open>n\<close>
  elements: the returned buffer is the scalar form mapped over the first \<open>n\<close>
  elements, followed by the untouched rest, and the number of calls is \<open>n\<close>.
\<close>

theorem buffer_form_terminates:
  assumes "n \<le> length buf"
  shows
    "cosh_buffer buf n = Some (map cosh_scalar (take n buf) @ drop n buf, n)
   \<and> sinh_buffer buf n = Some (map sinh_scalar (take n buf) @ drop n buf, n)
   \<and> tanh_buffer buf n = Some (map tanh_scalar (take n buf) @ drop n buf, n)
   \<and> cos_buffer buf n = Some (map cos_scalar (take n buf) @ drop n buf, n)
   \<and> sin_buffer buf n = Some (map sin_scalar (take n buf) @ drop n buf, n)
   \<and> tan_buffer buf n = Some (map tan_scalar (take n buf) @ drop n buf, n)
   \<and> exp_buffer buf n = Some (map exp_scalar (take n buf) @ drop n buf, n)
   \<and> logNPlusOne_buffer buf n =
       Some (map logNPlusOne_scalar (take n buf) @ drop n buf, n)"
  unfolding buffer_defs by (intro conjI buffer_loop_run assms)

theorem buffer_form_terminates_witness:
  "(2 :: nat) \<le> length [0, 1 / 2, 1 :: real]
   \<and> cosh_buffer [0, 1 / 2, 1] 2 = Some ([cosh_scalar 0, cosh_scalar (1 / 2), 1], 2)
   \<and> sinh_buffer [0, 1 / 2, 1] 2 = Some ([sinh_scalar 0, sinh_scalar (1 / 2), 1], 2)
   \<and> tanh_buffer [0, 1 / 2, 1] 2 = Some ([tanh_scalar 0, tanh_scalar (1 / 2), 1], 2)
   \<and> cos_buffer [0, 1 / 2, 1] 2 = Some ([cos_scalar 0, cos_scalar (1 / 2), 1], 2)
   \<and> sin_buffer [0, 1 / 2, 1] 2 = Some ([sin_scalar 0, sin_scalar (1 / 2), 1], 2)
   \<and> tan_buffer [0, 1 / 2, 1] 2 = Some ([tan_scalar 0, tan_scalar (1 / 2), 1], 2)
   \<and> exp_buffer [0, 1 / 2, 1] 2 = Some ([exp_scalar 0, exp_scalar (1 / 2), 1], 2)
   \<and> logNPlusOne_buffer [0, 1 / 2, 1] 2 =
       Some ([logNPlusOne_scalar 0, logNPlusOne_scalar (1 / 2), 1], 2)"
proof -
  have h: "(2 :: nat) \<le> length [0, 1 / 2, 1 :: real]" by simp
  have t: "map f (take 2 [0, 1 / 2, 1 :: real]) @ drop 2 [0, 1 / 2, 1] = [f 0, f (1 / 2), 1]"
    for f :: "real \<Rightarrow> real"
    by simp
  show ?thesis using h buffer_form_terminates [OF h] unfolding t by simp
qed

section \<open>The signs of the denominators\<close>

text \<open>
  The denominators of cosh and sinh are negative for \<open>x\<close> between \<open>- 5\<close> and \<open>5\<close>, those
  of tanh, cos, sin and exp are positive everywhere, and the one of logNPlusOne is
  positive from \<open>- 4 / 5\<close> on.
\<close>

lemma square_le_of_abs:
  fixes x :: real assumes "- b \<le> x" "x \<le> b" shows "0 \<le> x * x \<and> x * x \<le> b * b"
proof -
  have "0 \<le> (b - x) * (b + x)" using assms by (intro mult_nonneg_nonneg) simp_all
  then show ?thesis by (simp add: algebra_simps)
qed

lemma cosh_poly_neg:
  fixes t :: real assumes "0 \<le> t" "t \<le> 25"
  shows "- 39251520 + t * (1154160 + t * (- 16632 + 127 * t)) < 0"
proof -
  have "- 16632 + 127 * t \<le> 0" using assms by simp
  then have "t * (- 16632 + 127 * t) \<le> 0" using assms by (simp add: mult_nonneg_nonpos)
  then have "1154160 + t * (- 16632 + 127 * t) \<le> 1154160" by simp
  then have "t * (1154160 + t * (- 16632 + 127 * t)) \<le> t * 1154160"
    using assms by (intro mult_left_mono) simp_all
  also have "\<dots> \<le> 25 * 1154160" using assms by simp
  finally show ?thesis by simp
qed

lemma sinh_poly_neg:
  fixes t :: real assumes "0 \<le> t" "t \<le> 25"
  shows "- 11511339840 + t * (277920720 + t * (- 3177720 + t * 18361)) < 0"
proof -
  have "- 3177720 + t * 18361 \<le> 0" using assms by simp
  then have "t * (- 3177720 + t * 18361) \<le> 0" using assms by (simp add: mult_nonneg_nonpos)
  then have "277920720 + t * (- 3177720 + t * 18361) \<le> 277920720" by simp
  then have "t * (277920720 + t * (- 3177720 + t * 18361)) \<le> t * 277920720"
    using assms by (intro mult_left_mono) simp_all
  also have "\<dots> \<le> 25 * 277920720" using assms by simp
  finally show ?thesis by simp
qed

lemma cosh_denominator_neg: "- 5 \<le> x \<Longrightarrow> x \<le> 5 \<Longrightarrow> cosh_denominator x < 0"
  using square_le_of_abs [of 5 x] cosh_poly_neg [of "x * x"]
  by (simp add: cosh_denominator_def Let_def)

lemma sinh_denominator_neg: "- 5 \<le> x \<Longrightarrow> x \<le> 5 \<Longrightarrow> sinh_denominator x < 0"
  using square_le_of_abs [of 5 x] sinh_poly_neg [of "x * x"]
  by (simp add: sinh_denominator_def Let_def)

lemma even_poly_pos:
  fixes t :: real assumes "0 \<le> t" "0 < a" "0 \<le> e" "0 \<le> f" "0 \<le> g"
  shows "0 < a + t * (e + t * (f + t * g))"
  using assms by (intro add_pos_nonneg mult_nonneg_nonneg add_nonneg_nonneg) simp_all

lemma tanh_denominator_pos: "0 < tanh_denominator x"
  using even_poly_pos [of "x * x" 135135 62370 3150 28]
  by (simp add: tanh_denominator_def Let_def mult.commute)

lemma cos_denominator_pos: "0 < cos_denominator x"
  using even_poly_pos [of "x * x" 39251520 1154160 16632 127]
  by (simp add: cos_denominator_def Let_def)

lemma sin_denominator_pos: "0 < sin_denominator x"
  using even_poly_pos [of "x * x" 11511339840 277920720 3177720 18361]
  by (simp add: sin_denominator_def Let_def)

lemma exp_denominator_sos:
  "exp_denominator x = (x * x - 10 * x + 30) * (x * x - 10 * x + 30) + 20 * ((x - 6) * (x - 6)) + 60"
  unfolding exp_denominator_def by (simp add: algebra_simps)

lemma exp_denominator_pos: "0 < exp_denominator x"
proof -
  have "0 \<le> (x * x - 10 * x + 30) * (x * x - 10 * x + 30)" by simp
  moreover have "0 \<le> 20 * ((x - 6) * (x - 6))" by simp
  ultimately show ?thesis unfolding exp_denominator_sos by linarith
qed

lemma logNPlusOne_denominator_shift:
  "3125 * logNPlusOne_denominator x =
     (let s = 5 * x + 4
      in 1016280 + s * (1458900 + s * (622800 + s * (90300 + s * (3900 + 30 * s)))))"
  unfolding logNPlusOne_denominator_def Let_def by (simp add: algebra_simps)

lemma quintic_pos:
  fixes s :: real assumes "0 \<le> s"
  shows "0 < 1016280 + s * (1458900 + s * (622800 + s * (90300 + s * (3900 + 30 * s))))"
  using assms by (intro add_pos_nonneg mult_nonneg_nonneg add_nonneg_nonneg) simp_all

lemma logNPlusOne_denominator_pos:
  assumes "- 4 / 5 \<le> x" shows "0 < logNPlusOne_denominator x"
proof -
  have "0 \<le> 5 * x + 4" using assms by simp
  then have "0 < 3125 * logNPlusOne_denominator x"
    unfolding logNPlusOne_denominator_shift Let_def by (rule quintic_pos)
  then show ?thesis by simp
qed

subsection \<open>The denominator of tan\<close>

text \<open>
  The denominator of tan changes its sign just above \<open>pi / 2\<close>: it is negative at
  \<open>52529 / 33441\<close>, about 1.5707963279, and positive at 1.5707963295. The first of
  these numbers is larger than \<open>pi / 2\<close>: the cosine is negative there, by its Taylor
  polynomial of degree 14 and the remainder of degree 16.
\<close>

lemma tan_denominator_sign_change:
  "tan_denominator (52529 / 33441) < 0 \<and> 0 < tan_denominator (15707963295 / 10000000000)"
  by (simp add: tan_denominator_def Let_def)

lemma cos_coeff_sum_16:
  "(\<Sum>m<16. cos_coeff m * x ^ m) =
     1 - x ^ 2 / 2 + x ^ 4 / 24 - x ^ 6 / 720 + x ^ 8 / 40320 - x ^ 10 / 3628800
       + x ^ 12 / 479001600 - x ^ 14 / 87178291200"
  by (simp add: lessThan_nat_numeral cos_coeff_def fact_numeral)

lemma cos_upper_16:
  fixes x :: real assumes "0 < x"
  shows "cos x \<le> 1 - x ^ 2 / 2 + x ^ 4 / 24 - x ^ 6 / 720 + x ^ 8 / 40320 - x ^ 10 / 3628800
       + x ^ 12 / 479001600 - x ^ 14 / 87178291200 + x ^ 16 / 20922789888000"
proof -
  obtain t where t: "cos x = (\<Sum>m<16. cos_coeff m * x ^ m)
      + (cos (t + 1 / 2 * real (16 :: nat) * pi) / fact 16) * x ^ 16"
    using Maclaurin_cos_expansion2 [of x 16] assms by auto
  have f: "(fact 16 :: real) = 20922789888000" by (simp add: fact_numeral)
  have "cos (t + 1 / 2 * real (16 :: nat) * pi) \<le> 1" by (rule cos_le_one)
  then have "cos (t + 1 / 2 * real (16 :: nat) * pi) / fact 16 \<le> 1 / fact 16"
    by (intro divide_right_mono) simp_all
  moreover have "0 \<le> x ^ 16" using assms by simp
  ultimately have "(cos (t + 1 / 2 * real (16 :: nat) * pi) / fact 16) * x ^ 16
      \<le> (1 / fact 16) * x ^ 16"
    by (rule mult_right_mono)
  then have "cos x \<le> (\<Sum>m<16. cos_coeff m * x ^ m) + x ^ 16 / 20922789888000"
    unfolding t f by simp
  then show ?thesis unfolding cos_coeff_sum_16 .
qed

lemma cos_neg_at_bound: "cos (52529 / 33441 :: real) < 0"
proof -
  have "cos (52529 / 33441 :: real) \<le> 1 - (52529 / 33441) ^ 2 / 2 + (52529 / 33441) ^ 4 / 24
       - (52529 / 33441) ^ 6 / 720 + (52529 / 33441) ^ 8 / 40320 - (52529 / 33441) ^ 10 / 3628800
       + (52529 / 33441) ^ 12 / 479001600 - (52529 / 33441) ^ 14 / 87178291200
       + (52529 / 33441) ^ 16 / 20922789888000"
    by (rule cos_upper_16) simp
  also have "\<dots> < 0" by (simp add: power_divide)
  finally show ?thesis .
qed

lemma pi_half_less_bound: "pi / 2 < 52529 / 33441"
proof (rule ccontr)
  assume "\<not> pi / 2 < 52529 / 33441"
  then have "(52529 / 33441 :: real) \<le> pi / 2" by simp
  moreover have "- (pi / 2) \<le> (52529 / 33441 :: real)"
    using pi_ge_zero by linarith
  ultimately have "0 \<le> cos (52529 / 33441 :: real)" by (intro cos_ge_zero)
  with cos_neg_at_bound show False by simp
qed

lemma tan_poly_mono:
  fixes t s :: real assumes "0 \<le> t" "t \<le> s" "s \<le> 3"
  shows "- 135135 + t * (62370 + t * (- 3150 + 28 * t))
           \<le> - 135135 + s * (62370 + s * (- 3150 + 28 * s))"
proof -
  have "0 \<le> 28 * (t * t + t * s + s * s)" using assms by simp
  moreover have "3150 * (t + s) \<le> 3150 * 6" using assms by simp
  ultimately have "0 \<le> 62370 - 3150 * (t + s) + 28 * (t * t + t * s + s * s)" by simp
  then have "0 \<le> (s - t) * (62370 - 3150 * (t + s) + 28 * (t * t + t * s + s * s))"
    using assms by (intro mult_nonneg_nonneg) simp_all
  then show ?thesis by (simp add: algebra_simps)
qed

lemma tan_poly_neg_at_bound:
  "- 135135 + (52529 / 33441 * (52529 / 33441)) * (62370 + (52529 / 33441 * (52529 / 33441))
       * (- 3150 + 28 * (52529 / 33441 * (52529 / 33441)))) < (0 :: real)"
  by simp

lemma tan_denominator_neg:
  assumes "- (pi / 2) \<le> x" "x \<le> pi / 2"
  shows "tan_denominator x < 0"
proof -
  let ?c = "52529 / 33441 :: real"
  have "- ?c \<le> x" "x \<le> ?c" using assms pi_half_less_bound by linarith+
  then have sq: "0 \<le> x * x" "x * x \<le> ?c * ?c" using square_le_of_abs [of ?c x] by simp_all
  have "?c * ?c \<le> 3" by simp
  from tan_poly_mono [OF sq this] tan_poly_neg_at_bound
  show ?thesis unfolding tan_denominator_def Let_def by linarith
qed

section \<open>No division by zero on the documented domains\<close>

text \<open>
  C2. For each of the eight scalar forms the denominator is not zero at any input of
  the documented domain: cosh, sinh and tanh between \<open>- 5\<close> and \<open>5\<close>, cos and sin
  between \<open>- pi\<close> and \<open>pi\<close>, tan between \<open>- pi / 2\<close> and \<open>pi / 2\<close>, exp between \<open>- 6\<close>
  and \<open>4\<close>, logNPlusOne between \<open>- 0.8\<close> and \<open>5\<close>. The quotient that the scalar form
  returns is therefore a division by a non-zero number there.
\<close>

theorem denominators_nonzero:
  "(- 5 \<le> x \<and> x \<le> 5 \<longrightarrow>
      cosh_denominator x \<noteq> 0 \<and> sinh_denominator x \<noteq> 0 \<and> tanh_denominator x \<noteq> 0)
   \<and> (- pi \<le> x \<and> x \<le> pi \<longrightarrow> cos_denominator x \<noteq> 0 \<and> sin_denominator x \<noteq> 0)
   \<and> (- (pi / 2) \<le> x \<and> x \<le> pi / 2 \<longrightarrow> tan_denominator x \<noteq> 0)
   \<and> (- 6 \<le> x \<and> x \<le> 4 \<longrightarrow> exp_denominator x \<noteq> 0)
   \<and> (- 8 / 10 \<le> x \<and> x \<le> 5 \<longrightarrow> logNPlusOne_denominator x \<noteq> 0)"
proof (intro conjI impI)
  assume "- 5 \<le> x \<and> x \<le> 5"
  then show "cosh_denominator x \<noteq> 0" using cosh_denominator_neg [of x] by simp
next
  assume "- 5 \<le> x \<and> x \<le> 5"
  then show "sinh_denominator x \<noteq> 0" using sinh_denominator_neg [of x] by simp
next
  show "tanh_denominator x \<noteq> 0" using tanh_denominator_pos [of x] by simp
next
  show "cos_denominator x \<noteq> 0" using cos_denominator_pos [of x] by simp
next
  show "sin_denominator x \<noteq> 0" using sin_denominator_pos [of x] by simp
next
  assume "- (pi / 2) \<le> x \<and> x \<le> pi / 2"
  then show "tan_denominator x \<noteq> 0" using tan_denominator_neg [of x] by simp
next
  show "exp_denominator x \<noteq> 0" using exp_denominator_pos [of x] by simp
next
  assume "- 8 / 10 \<le> x \<and> x \<le> 5"
  then show "logNPlusOne_denominator x \<noteq> 0" using logNPlusOne_denominator_pos [of x] by simp
qed

theorem denominators_nonzero_witness:
  "(- 5 \<le> (1 :: real) \<and> (1 :: real) \<le> 5) \<and> (- pi \<le> 1 \<and> 1 \<le> pi)
   \<and> (- (pi / 2) \<le> 1 \<and> 1 \<le> pi / 2) \<and> (- 6 \<le> (1 :: real) \<and> (1 :: real) \<le> 4)
   \<and> (- 8 / 10 \<le> (1 :: real) \<and> (1 :: real) \<le> 5)
   \<and> cosh_denominator 1 \<noteq> 0 \<and> sinh_denominator 1 \<noteq> 0 \<and> tanh_denominator 1 \<noteq> 0
   \<and> cos_denominator 1 \<noteq> 0 \<and> sin_denominator 1 \<noteq> 0 \<and> tan_denominator 1 \<noteq> 0
   \<and> exp_denominator 1 \<noteq> 0 \<and> logNPlusOne_denominator 1 \<noteq> 0"
proof -
  have h: "- pi \<le> 1 \<and> 1 \<le> pi" "- (pi / 2) \<le> 1 \<and> 1 \<le> pi / 2"
    using pi_ge_two by simp_all
  show ?thesis using h denominators_nonzero [of 1] by simp
qed

section \<open>Symmetries\<close>

text \<open>
  C7. The scalar forms of sin and tan are odd and those of cos and cosh are even, at
  every \<open>x\<close>, hence at every \<open>x\<close> of the documented domains: the argument enters the
  denominators only through \<open>x2 = x * x\<close>, and the numerators through \<open>x2\<close> and, for
  sin and tan, through the factor \<open>x\<close>.
\<close>

theorem scalar_symmetry:
  "sin_scalar (- x) = - sin_scalar x \<and> tan_scalar (- x) = - tan_scalar x
   \<and> cos_scalar (- x) = cos_scalar x \<and> cosh_scalar (- x) = cosh_scalar x"
  by (simp add: scalar_defs numerator_defs denominator_defs Let_def)

lemma exp_denominator_numerator: "exp_denominator x = exp_numerator (- x)"
  by (simp add: exp_denominator_def exp_numerator_def algebra_simps)

section \<open>exp at \<open>x\<close> and at \<open>- x\<close>\<close>

text \<open>
  Rounding to nearest, ties to even, commutes with negation, and so does every
  operation of the binary64 model. The denominator of exp at \<open>x\<close> and its numerator at
  \<open>- x\<close> therefore go through the same operations on the same numbers, up to signs
  that cancel, and are the same \<^verbatim>\<open>double\<close>.
\<close>

lemma round_half_even_minus: "round_half_even (- y) = - round_half_even y"
proof (cases "y = of_int \<lfloor>y\<rfloor>")
  case True
  then have "\<lfloor>- y\<rfloor> = - \<lfloor>y\<rfloor>" by (metis floor_of_int of_int_minus)
  with True show ?thesis by (simp add: round_half_even_def Let_def)
next
  case False
  define f where "f = \<lfloor>y\<rfloor>"
  define d where "d = y - of_int f"
  have lt: "of_int \<lfloor>y\<rfloor> < y" using False of_int_floor_le [of y] by (metis less_le)
  have fm: "\<lfloor>- y\<rfloor> = - f - 1" unfolding f_def
  proof (rule floor_unique)
    show "of_int (- \<lfloor>y\<rfloor> - 1) \<le> - y" by linarith
    show "- y < of_int (- \<lfloor>y\<rfloor> - 1) + 1" using lt by linarith
  qed
  have dm: "- y - of_int (- f - 1) = 1 - d" by (simp add: d_def)
  have a: "round_half_even y =
      (if d < 1 / 2 then f else if 1 / 2 < d then f + 1 else if even f then f else f + 1)"
    unfolding round_half_even_def Let_def f_def [symmetric] d_def [symmetric] ..
  have b: "round_half_even (- y) =
      (if 1 - d < 1 / 2 then - f - 1 else if 1 / 2 < 1 - d then - f - 1 + 1
       else if even (- f - 1) then - f - 1 else - f - 1 + 1)"
    unfolding round_half_even_def Let_def fm dm ..
  show ?thesis unfolding a b by auto
qed

lemma binade_minus: "binade (- y) = binade y"
  by (simp add: binade_def)

lemma round_binary64_minus: "round_binary64 (- y) = - round_binary64 y"
  using round_half_even_minus [of "y / 2 powi (max (binade y) (- 1022) - 52)"]
  by (simp add: round_binary64_def Let_def binade_minus)

lemma fl_minus: "fl (- y) = map_option uminus (fl y)"
  by (simp add: fl_def Let_def round_binary64_minus)

lemma fadd_minus: "fadd (- a) (- b) = map_option uminus (fadd a b)"
  using fl_minus [of "a + b"] by (simp add: fadd_def)

lemma fmul_minus_left: "fmul (- a) b = map_option uminus (fmul a b)"
  using fl_minus [of "a * b"] by (simp add: fmul_def)

lemma fmul_minus_right: "fmul a (- b) = map_option uminus (fmul a b)"
  using fl_minus [of "a * b"] by (simp add: fmul_def)

lemma exp_denominator_double_numerator:
  "exp_denominator_double x = exp_numerator_double (- x)"
proof -
  have 1: "fadd 20 (- x) = map_option uminus (fadd (- 20) x)"
    using fadd_minus [of "- 20" x] by simp
  have 2: "fadd 840 (- t) = map_option uminus (fadd (- 840) t)" for t
    using fadd_minus [of "- 840" t] by simp
  show ?thesis
    unfolding exp_denominator_double_def exp_numerator_double_def
    by (simp add: 1 2 fmul_minus_left fmul_minus_right bind_map_option comp_def
        option.map_comp option.map_ident)
qed

lemma exp_numerator_double_denominator:
  "exp_numerator_double x = exp_denominator_double (- x)"
  using exp_denominator_double_numerator [of "- x"] by simp

lemma exp_numerator_double_at_4: "exp_numerator_double 4 = Some 9456"
proof -
  have "fadd 20 4 = Some 24" "fmul 4 24 = Some 96" "fadd 180 96 = Some 276"
    "fmul 4 276 = Some 1104" "fadd 840 1104 = Some 1944" "fmul 4 1944 = Some 7776"
    "fadd 1680 7776 = Some 9456"
    by (simp_all add: double_defs Let_def)
  then show ?thesis by (simp add: exp_numerator_double_def)
qed

lemma exp_denominator_double_at_4: "exp_denominator_double 4 = Some 176"
proof -
  have "fadd (- 20) 4 = Some (- 16)" "fmul 4 (- 16) = Some (- 64)" "fadd 180 (- 64) = Some 116"
    "fmul 4 116 = Some 464" "fadd (- 840) 464 = Some (- 376)" "fmul 4 (- 376) = Some (- 1504)"
    "fadd 1680 (- 1504) = Some 176"
    by (simp_all add: double_defs Let_def)
  then show ?thesis by (simp add: exp_denominator_double_def)
qed

text \<open>
  C10 as stated, that exp at \<open>x\<close> times exp at \<open>- x\<close> is exactly 1 wherever both
  denominators are not zero, fails on the program at \<open>x = 4\<close>, where \<open>x\<close> and \<open>- x\<close> are
  both in the documented domain. All additions and multiplications of the two
  polynomials are exact there (the numerator is 9456, the denominator 176), so the
  values do not depend on how they are rounded or fused; the two divisions round, and
  the product of the two returned numbers is not 1, neither as a real number nor as
  the \<^verbatim>\<open>double\<close> product, which is \<open>1 - 2 ^ - 53\<close>.
\<close>

theorem exp_double_product_counterexample:
  "exp_denominator 4 \<noteq> 0 \<and> exp_denominator (- 4) \<noteq> 0
   \<and> exp_denominator_double 4 = Some 176 \<and> exp_denominator_double (- 4) = Some 9456
   \<and> exp_scalar_double 4 = Some (7561441419818077 / 2 ^ 47)
   \<and> exp_scalar_double (- 4) = Some (5364693972366885 / 2 ^ 58)
   \<and> fmul (7561441419818077 / 2 ^ 47) (5364693972366885 / 2 ^ 58) = Some (1 - 1 / 2 ^ 53)
   \<and> (7561441419818077 / 2 ^ 47) * (5364693972366885 / 2 ^ 58) \<noteq> (1 :: real)"
proof -
  have r: "exp_denominator 4 \<noteq> 0" "exp_denominator (- 4) \<noteq> 0"
    by (simp_all add: exp_denominator_def)
  have n: "exp_numerator_double (- 4) = Some 176" "exp_denominator_double (- 4) = Some 9456"
    using exp_denominator_double_numerator [of 4] exp_numerator_double_denominator [of 4]
    by (simp_all add: exp_numerator_double_at_4 exp_denominator_double_at_4)
  have q: "fdiv 9456 176 = Some (7561441419818077 / 2 ^ 47)"
    "fdiv 176 9456 = Some (5364693972366885 / 2 ^ 58)"
    by (simp_all add: double_defs Let_def)
  have s: "exp_scalar_double 4 = Some (7561441419818077 / 2 ^ 47)"
    "exp_scalar_double (- 4) = Some (5364693972366885 / 2 ^ 58)"
    by (simp_all add: exp_scalar_double_def exp_numerator_double_at_4
        exp_denominator_double_at_4 n q)
  have m: "fmul (7561441419818077 / 2 ^ 47) (5364693972366885 / 2 ^ 58) = Some (1 - 1 / 2 ^ 53)"
    by (simp add: double_defs Let_def)
  have e: "(7561441419818077 / 2 ^ 47) * (5364693972366885 / 2 ^ 58) \<noteq> (1 :: real)"
    by simp
  show ?thesis using r n(2) s m e exp_denominator_double_at_4 by blast
qed

text \<open>
  C10, amended. The denominator of exp is its numerator at \<open>- x\<close>, in exact arithmetic
  and in binary64 alike. In exact arithmetic neither denominator is ever zero and
  the quotients at \<open>x\<close> and at \<open>- x\<close> are reciprocal: their product is exactly 1. In
  binary64 the scalar form at \<open>- x\<close> returns the rounded quotient of the denominator
  by the numerator that the scalar form at \<open>x\<close> divides the other way round; both
  divisions round, so the product of the two results need not be exactly 1.
\<close>

theorem exp_scalar_reciprocal:
  "exp_denominator x = exp_numerator (- x)
   \<and> exp_denominator x \<noteq> 0 \<and> exp_denominator (- x) \<noteq> 0
   \<and> exp_scalar x * exp_scalar (- x) = 1
   \<and> exp_scalar (- x) = 1 / exp_scalar x
   \<and> exp_denominator_double x = exp_numerator_double (- x)
   \<and> exp_numerator_double x = exp_denominator_double (- x)
   \<and> exp_scalar_double (- x) =
       do { numerator \<leftarrow> exp_numerator_double x;
            denominator \<leftarrow> exp_denominator_double x;
            fdiv denominator numerator }"
proof -
  have d: "exp_denominator x \<noteq> 0" "exp_denominator (- x) \<noteq> 0"
    using exp_denominator_pos [of x] exp_denominator_pos [of "- x"] by simp_all
  have n: "exp_numerator x = exp_denominator (- x)" "exp_numerator (- x) = exp_denominator x"
    by (simp_all add: exp_denominator_numerator)
  have real_part: "exp_denominator x = exp_numerator (- x)
     \<and> exp_denominator x \<noteq> 0 \<and> exp_denominator (- x) \<noteq> 0
     \<and> exp_scalar x * exp_scalar (- x) = 1 \<and> exp_scalar (- x) = 1 / exp_scalar x"
    using d by (simp add: exp_scalar_def n)
  have swap: "exp_scalar_double (- x) =
       do { numerator \<leftarrow> exp_numerator_double x;
            denominator \<leftarrow> exp_denominator_double x;
            fdiv denominator numerator }"
    unfolding exp_scalar_double_def
      exp_denominator_double_numerator [of x, symmetric]
      exp_numerator_double_denominator [of x, symmetric]
    by (cases "exp_numerator_double x"; cases "exp_denominator_double x") simp_all
  show ?thesis
    using real_part swap exp_denominator_double_numerator [of x]
      exp_numerator_double_denominator [of x] by blast
qed

section \<open>Distance to the exact functions\<close>

text \<open>
  Bounds for the exact hyperbolic cosine at 1, from the exponential series up to the
  term of degree 11 and the remainder of degree 12.
\<close>

lemma exp_one_bounds:
  "13563139 / 4989600 < exp (1 :: real) \<and> exp (1 :: real) \<le> 13563139 / 4989600 + 3 / 479001600"
proof -
  obtain t :: real where t: "\<bar>t\<bar> \<le> \<bar>1\<bar>"
      "exp 1 = (\<Sum>m<12. 1 ^ m / fact m) + (exp t / fact 12) * 1 ^ 12"
    using Maclaurin_exp_le [of 1 12] by blast
  have s: "(\<Sum>m<12. 1 ^ m / fact m) = (13563139 / 4989600 :: real)"
    by (simp add: lessThan_nat_numeral fact_numeral)
  have f: "(fact 12 :: real) = 479001600" by (simp add: fact_numeral)
  have "t \<le> 1" using t(1) by simp
  then have "exp t \<le> exp 1" by simp
  also have "\<dots> \<le> 3" by (rule exp_le)
  finally have u: "exp t \<le> 3" .
  have l: "0 < exp t" by simp
  have e: "exp (1 :: real) = 13563139 / 4989600 + exp t / 479001600"
    using t(2) unfolding s f by simp
  show ?thesis unfolding e using u l by simp
qed

lemma cosh_one_bounds:
  "1543080633 / 1000000000 < cosh (1 :: real) \<and> cosh (1 :: real) < 1543080637 / 1000000000"
proof -
  let ?L = "13563139 / 4989600 :: real"
  let ?U = "13563139 / 4989600 + 3 / 479001600 :: real"
  have b: "?L < exp 1" "exp (1 :: real) \<le> ?U" using exp_one_bounds by simp_all
  have pos: "0 < exp (1 :: real)" by simp
  have i1: "1 / exp (1 :: real) < 1 / ?L"
    using b(1) by (intro divide_strict_left_mono) simp_all
  have i2: "1 / ?U \<le> 1 / exp (1 :: real)"
    using b(2) pos by (intro divide_left_mono) simp_all
  have c: "cosh (1 :: real) = (exp 1 + 1 / exp 1) / 2"
    by (simp add: cosh_def exp_minus inverse_eq_divide)
  have "cosh (1 :: real) < (?U + 1 / ?L) / 2" unfolding c using b(2) i1 by simp
  moreover have "(?U + 1 / ?L) / 2 < 1543080637 / 1000000000" by simp
  moreover have "(?L + 1 / ?U) / 2 < cosh (1 :: real)" unfolding c using b(1) i2 by simp
  moreover have "1543080633 / 1000000000 < (?L + 1 / ?U) / 2" by simp
  ultimately show ?thesis by linarith
qed

text \<open>
  The scalar form of cosh takes the same value, 39251520, for its constants \<open>a\<close> and
  \<open>b\<close>. At \<open>x = 1\<close>, well inside the documented domain, it returns
  \<open>79592687 / 38113865\<close>, about 2.0883, whereas the hyperbolic cosine of 1 is about
  1.5431.
\<close>

lemma cosh_scalar_at_one: "cosh_scalar 1 = 79592687 / 38113865"
  by (simp add: scalar_defs numerator_defs denominator_defs)

text \<open>
  C8. The claim is that every scalar form stays within a small error of the exact
  function on its documented domain. The scalar form of cosh does not: at \<open>x = 1\<close> it
  is more than 0.545 away from the hyperbolic cosine, which is more than 35 percent
  of the exact value.
\<close>

theorem cosh_scalar_error_at_one:
  "cosh_scalar 1 = 79592687 / 38113865
   \<and> 545 / 1000 < \<bar>cosh_scalar 1 - cosh 1\<bar>
   \<and> 35 / 100 * \<bar>cosh 1\<bar> < \<bar>cosh_scalar 1 - cosh 1\<bar>"
proof -
  have b: "1543080633 / 1000000000 < cosh (1 :: real)" "cosh (1 :: real) < 1543080637 / 1000000000"
    using cosh_one_bounds by simp_all
  have "(545 / 1000 :: real) < 79592687 / 38113865 - 1543080637 / 1000000000" by simp
  also have "\<dots> < cosh_scalar 1 - cosh 1" using b(2) by (simp add: cosh_scalar_at_one)
  finally have e: "545 / 1000 < cosh_scalar 1 - cosh 1" .
  have "35 / 100 * \<bar>cosh (1 :: real)\<bar> < 35 / 100 * (1543080637 / 1000000000)"
    using b by simp
  also have "\<dots> < 545 / 1000" by simp
  finally have "35 / 100 * \<bar>cosh (1 :: real)\<bar> < 545 / 1000" .
  with e show ?thesis by (simp add: cosh_scalar_at_one)
qed

text \<open>
  The scalar form of cos has the same constants \<open>a\<close>, \<open>c\<close>, \<open>d\<close>, \<open>e\<close>, \<open>f\<close> and \<open>g\<close> as
  the one of cosh, and \<open>b = 18471600\<close>. With that value of \<open>b\<close> in the numerator of
  cosh, the quotient at \<open>x = 1\<close> is within \<open>1 / 10 ^ 8\<close> of the hyperbolic cosine.
\<close>

lemma cosh_with_constant_of_cos_at_one:
  "\<bar>(let a = 39251520; b = 18471600; c = 1075032; d = 14615; x2 = 1 * 1
     in - (a + x2 * (b + x2 * (c + d * x2)))) / cosh_denominator 1 - cosh (1 :: real)\<bar>
   < 1 / 10 ^ 8"
proof -
  have v: "(let a = 39251520; b = 18471600; c = 1075032; d = 14615; x2 = 1 * 1
     in - (a + x2 * (b + x2 * (c + d * x2)))) / cosh_denominator 1
     = (58812767 / 38113865 :: real)"
    by (simp add: cosh_denominator_def)
  have b: "1543080633 / 1000000000 < cosh (1 :: real)" "cosh (1 :: real) < 1543080637 / 1000000000"
    using cosh_one_bounds by simp_all
  have "(58812767 / 38113865 :: real) - 1 / 10 ^ 8 < 1543080633 / 1000000000" by simp
  from this b(1) have l: "(58812767 / 38113865 :: real) - 1 / 10 ^ 8 < cosh 1"
    by (rule less_trans)
  have "(1543080637 / 1000000000 :: real) < 58812767 / 38113865 + 1 / 10 ^ 8" by simp
  with b(2) have u: "cosh (1 :: real) < 58812767 / 38113865 + 1 / 10 ^ 8" by (rule less_trans)
  show ?thesis unfolding v abs_less_iff using l u by linarith
qed

text \<open>
  How small the error is depends on the function and on the place in its domain. At
  the lower end of the domain of exp the scalar form returns \<open>1 / 196\<close>, about 0.0051,
  where the exponential function is below \<open>1 / 400\<close>: the distance is larger than
  the exact value.
\<close>

lemma exp_six_gt: "400 < exp (6 :: real)"
proof -
  have e: "exp (6 :: real) = exp 1 ^ 6" using exp_of_nat_mult [of 6 "1 :: real"] by simp
  have "(13563139 / 4989600 :: real) < exp 1" using exp_one_bounds by simp
  then have "(13563139 / 4989600 :: real) ^ 6 < exp 1 ^ 6"
    by (intro power_strict_mono) simp_all
  moreover have "(400 :: real) < (13563139 / 4989600) ^ 6" by (simp add: power_divide)
  ultimately show ?thesis unfolding e by linarith
qed

lemma exp_scalar_error_at_minus_six:
  "exp_scalar (- 6) = 1 / 196
   \<and> exp (- 6 :: real) < 1 / 400
   \<and> 1 / 1000 < \<bar>exp_scalar (- 6) - exp (- 6)\<bar>
   \<and> \<bar>exp (- 6 :: real)\<bar> < \<bar>exp_scalar (- 6) - exp (- 6)\<bar>"
proof -
  have v: "exp_scalar (- 6) = 1 / 196"
    by (simp add: exp_scalar_def exp_numerator_def exp_denominator_def)
  have "exp (- 6 :: real) = 1 / exp 6" by (simp add: exp_minus inverse_eq_divide)
  also have "\<dots> < 1 / 400" using exp_six_gt by (intro divide_strict_left_mono) simp_all
  finally have u: "exp (- 6 :: real) < 1 / 400" .
  have p: "0 < exp (- 6 :: real)" by simp
  show ?thesis unfolding v using u p by (simp add: abs_if)
qed

end
